theory Spec2Isabelle
  imports Main "HOL-Library.Sublist"
begin

section \<open>Python text and bytes\<close>

text \<open>
  The handler of \<^verbatim>\<open>src/health-check-server.py\<close> works on Python \<^verbatim>\<open>str\<close> values
  (\<^verbatim>\<open>subprocess.run(..., text=True)\<close> decodes the probe's output) and writes
  \<^verbatim>\<open>bytes\<close> to the socket. A \<^verbatim>\<open>str\<close> is a sequence of Unicode code points, so it is
  modelled as a list of natural numbers; \<^verbatim>\<open>bytes\<close> are a list of 8-bit characters,
  which is what a HOL \<open>string\<close> is. A \<^verbatim>\<open>str\<close> literal of the source is written
  \<open>py ''...''\<close>, a \<^verbatim>\<open>bytes\<close> literal \<open>''...''\<close>.
\<close>

type_synonym pystr = "nat list"
type_synonym bytes = "char list"

definition py :: "string \<Rightarrow> pystr" where
  "py s = map of_char s"

text \<open>
  \<^verbatim>\<open>str.isspace\<close> of one character: the code points CPython treats as white space
  (U+0009..U+000D, U+001C..U+0020, U+0085, U+00A0, U+1680, U+2000..U+200A, U+2028, U+2029,
  U+202F, U+205F, U+3000). \<^verbatim>\<open>str.strip()\<close> without argument removes exactly these.
\<close>

definition isspace :: "nat \<Rightarrow> bool" where
  "isspace c \<longleftrightarrow>
     (9 \<le> c \<and> c \<le> 13) \<or> (28 \<le> c \<and> c \<le> 32) \<or> c = 133 \<or> c = 160 \<or> c = 5760 \<or>
     (8192 \<le> c \<and> c \<le> 8202) \<or> c = 8232 \<or> c = 8233 \<or> c = 8239 \<or> c = 8287 \<or> c = 12288"

definition str_lstrip :: "pystr \<Rightarrow> pystr" where
  "str_lstrip s = dropWhile isspace s"

definition str_rstrip :: "pystr \<Rightarrow> pystr" where
  "str_rstrip s = rev (dropWhile isspace (rev s))"

text \<open>\<^verbatim>\<open>s.strip()\<close>\<close>

definition str_strip :: "pystr \<Rightarrow> pystr" where
  "str_strip s = str_rstrip (str_lstrip s)"

text \<open>\<^verbatim>\<open>s.startswith(p)\<close>\<close>

fun str_startswith :: "pystr \<Rightarrow> pystr \<Rightarrow> bool" where
  "str_startswith s [] = True"
| "str_startswith [] (p # ps) = False"
| "str_startswith (c # cs) (p # ps) = (c = p \<and> str_startswith cs ps)"

text \<open>\<^verbatim>\<open>sub in s\<close>: some position of \<open>s\<close> starts an occurrence of \<open>sub\<close>.\<close>

fun str_contains :: "pystr \<Rightarrow> pystr \<Rightarrow> bool" where
  "str_contains sub [] = (sub = [])"
| "str_contains sub (c # cs) = (str_startswith (c # cs) sub \<or> str_contains sub cs)"

text \<open>
  \<^verbatim>\<open>s.split(sep)\<close> for a separator of one character, the only use in the source
  (\<^verbatim>\<open>output.split('\n')\<close>): the empty text gives one empty field, and every
  occurrence of the separator starts a new field.
\<close>

fun str_split :: "nat \<Rightarrow> pystr \<Rightarrow> pystr list" where
  "str_split sep [] = [[]]"
| "str_split sep (c # cs) =
     (if c = sep then [] # str_split sep cs
      else (case str_split sep cs of
              [] \<Rightarrow> [[c]]
            | l # ls \<Rightarrow> (c # l) # ls))"

text \<open>\<^verbatim>\<open>sep.join(parts)\<close>\<close>

fun str_join :: "pystr \<Rightarrow> pystr list \<Rightarrow> pystr" where
  "str_join sep [] = []"
| "str_join sep [l] = l"
| "str_join sep (l # m # ls) = l @ sep @ str_join sep (m # ls)"

text \<open>
  \<^verbatim>\<open>s.encode('utf-8')\<close>. The text that \<^verbatim>\<open>subprocess.run\<close> returns was decoded with
  the strict error handler and so holds no surrogate code point, the only characters on
  which the encoder raises; the model gives every code point its UTF-8 bit pattern.
\<close>

definition utf8_char :: "nat \<Rightarrow> bytes" where
  "utf8_char c =
     (if c < 128 then [char_of c]
      else if c < 2048 then [char_of (192 + c div 64), char_of (128 + c mod 64)]
      else if c < 65536 then
        [char_of (224 + c div 4096), char_of (128 + c div 64 mod 64), char_of (128 + c mod 64)]
      else
        [char_of (240 + c div 262144), char_of (128 + c div 4096 mod 64),
         char_of (128 + c div 64 mod 64), char_of (128 + c mod 64)])"

definition utf8_encode :: "pystr \<Rightarrow> bytes" where
  "utf8_encode s = concat (map utf8_char s)"

section \<open>The error envelope and its serialisation\<close>

text \<open>
  \<^verbatim>\<open>json.dumps\<close> with its defaults (\<^verbatim>\<open>ensure_ascii=True\<close>, separators \<^verbatim>\<open>', '\<close> and
  \<^verbatim>\<open>': '\<close>) on the dictionary of \<^verbatim>\<open>send_error_response\<close>. A character of a string
  is written as itself when it is printable ASCII other than the quote and the backslash,
  by its short escape when it has one, and as \<^verbatim>\<open>\uXXXX\<close> (lower-case hexadecimal, a
  surrogate pair above U+FFFF) otherwise. Code 92 is the backslash, 34 the double quote.
\<close>

definition hex_digit :: "nat \<Rightarrow> nat" where
  "hex_digit d = (if d < 10 then 48 + d else 87 + d)"

definition u_escape :: "nat \<Rightarrow> pystr" where
  "u_escape n =
     [92, 117, hex_digit (n div 4096 mod 16), hex_digit (n div 256 mod 16),
      hex_digit (n div 16 mod 16), hex_digit (n mod 16)]"

definition escape_char :: "nat \<Rightarrow> pystr" where
  "escape_char c =
     (if c = 34 then [92, 34]
      else if c = 92 then [92, 92]
      else if c = 10 then [92, 110]
      else if c = 13 then [92, 114]
      else if c = 9 then [92, 116]
      else if c = 8 then [92, 98]
      else if c = 12 then [92, 102]
      else if 32 \<le> c \<and> c \<le> 126 then [c]
      else if c < 65536 then u_escape c
      else (let v = c - 65536
            in u_escape (55296 + v div 1024 mod 1024) @ u_escape (56320 + v mod 1024)))"

definition json_str :: "pystr \<Rightarrow> pystr" where
  "json_str s = [34] @ concat (map escape_char s) @ [34]"

text \<open>The decimal form of an integer, \<^verbatim>\<open>int.__repr__\<close>.\<close>

function nat_repr :: "nat \<Rightarrow> pystr" where
  "nat_repr n = (if n < 10 then [48 + n] else nat_repr (n div 10) @ [48 + n mod 10])"
  by pat_completeness auto
termination
  by (relation "measure id") auto

declare nat_repr.simps [simp del]

definition int_repr :: "int \<Rightarrow> pystr" where
  "int_repr i = (if i < 0 then 45 # nat_repr (nat (- i)) else nat_repr (nat i))"

text \<open>The dictionary \<^verbatim>\<open>error_response\<close> of lines 81 to 85, its keys in insertion order.\<close>

record error_response =
  status :: pystr
  message :: pystr
  timestamp :: int

definition json_dumps :: "error_response \<Rightarrow> pystr" where
  \<open>json_dumps d =
     py ''{"status": '' @ json_str (status d) @
     py '', "message": '' @ json_str (message d) @
     py '', "timestamp": '' @ int_repr (timestamp d) @ py ''}''\<close>

section \<open>The request handler\<close>

text \<open>
  What a handler method does is the list of its calls on the outside world, in order: the
  probe it starts and what it sends through \<^verbatim>\<open>BaseHTTPRequestHandler\<close>.
  \<open>SendResponse\<close>, \<open>SendHeader\<close>, \<open>EndHeaders\<close> and \<open>Write\<close> are
  \<^verbatim>\<open>self.send_response\<close>, \<^verbatim>\<open>self.send_header\<close>, \<^verbatim>\<open>self.end_headers\<close> and
  \<^verbatim>\<open>self.wfile.write\<close>; \<open>SubprocessRun cmd t\<close> is \<^verbatim>\<open>subprocess.run(cmd, timeout=t)\<close>;
  \<open>SendError\<close> is the library's own \<^verbatim>\<open>self.send_error\<close>.
\<close>

datatype effect =
    SubprocessRun "pystr list" nat
  | SendResponse nat
  | SendHeader pystr pystr
  | EndHeaders
  | Write bytes
  | SendError nat

text \<open>
  An exception is its class, as far as the \<^verbatim>\<open>except\<close> clauses of the source tell
  classes apart, and its \<^verbatim>\<open>str(e)\<close>. Every class here derives from \<^verbatim>\<open>Exception\<close>.
\<close>

datatype exn_class = TimeoutExpired | JSONDecodeError | OtherException

datatype exn = Exn (exn_class: exn_class) (exn_str: pystr)

text \<open>The \<^verbatim>\<open>CompletedProcess\<close> that \<^verbatim>\<open>subprocess.run\<close> returns.\<close>

record CompletedProcess =
  returncode :: int
  stdout :: pystr
  stderr :: pystr

definition probe_path :: pystr where
  "probe_path = py ''/usr/local/bin/global-health-check.sh''"

text \<open>
  \<^verbatim>\<open>send_error_response\<close> (lines 76 to 86). \<open>now\<close> is the value of
  \<^verbatim>\<open>int(time.time() * 1000)\<close> when the method runs.
\<close>

definition send_error_response :: "pystr \<Rightarrow> int \<Rightarrow> effect list" where
  "send_error_response msg now =
     [SendResponse 500,
      SendHeader (py ''Content-Type'') (py ''application/json''),
      EndHeaders,
      Write (utf8_encode
        (json_dumps \<lparr>status = py ''error'', message = msg, timestamp = now\<rparr>))]"

text \<open>The loop of lines 36 to 39, \<open>json_lines\<close> its accumulator.\<close>

fun json_lines_loop :: "pystr list \<Rightarrow> pystr list \<Rightarrow> pystr list" where
  "json_lines_loop [] json_lines = json_lines"
| "json_lines_loop (line # lines) json_lines =
     (if \<not> str_startswith line probe_path
      then json_lines_loop lines (json_lines @ [line])
      else json_lines_loop lines json_lines)"

text \<open>Lines 32 to 40: the value of \<open>output\<close> when the JSON check starts.\<close>

definition clean_output :: "pystr \<Rightarrow> pystr" where
  "clean_output out =
     (let output = str_strip out
      in if str_contains (py ''EOF'') output
         then str_strip (str_join [10] (json_lines_loop (str_split 10 output) []))
         else output)"

text \<open>
  The body of the outer \<^verbatim>\<open>try\<close> (lines 23 to 52). \<open>run\<close> is what
  \<^verbatim>\<open>subprocess.run\<close> did, a \<^verbatim>\<open>CompletedProcess\<close> or an exception; \<open>loads\<close> is
  \<^verbatim>\<open>json.loads\<close>, of which the handler uses only whether it returns or raises. The
  inner \<^verbatim>\<open>try\<close> catches \<^verbatim>\<open>JSONDecodeError\<close> alone, every other exception leaves
  the block.
\<close>

definition health_try ::
  "(pystr \<Rightarrow> exn + unit) \<Rightarrow> exn + CompletedProcess \<Rightarrow> int \<Rightarrow> exn + effect list" where
  "health_try loads run now =
     (case run of
        Inl e \<Rightarrow> Inl e
      | Inr result \<Rightarrow>
          if returncode result = 0 then
            (let output = clean_output (stdout result)
             in case loads output of
                  Inr _ \<Rightarrow>
                    Inr [SendResponse 200,
                         SendHeader (py ''Content-Type'') (py ''application/json''),
                         EndHeaders,
                         Write (utf8_encode output)]
                | Inl e \<Rightarrow>
                    if exn_class e = JSONDecodeError
                    then Inr (send_error_response
                                (py ''Invalid JSON output from health check'') now)
                    else Inl e)
          else Inr (send_error_response
                      (py ''Health check script failed: '' @ stderr result) now))"

text \<open>\<^verbatim>\<open>do_GET\<close> (lines 18 to 69).\<close>

definition do_GET ::
  "(pystr \<Rightarrow> exn + unit) \<Rightarrow> exn + CompletedProcess \<Rightarrow> int \<Rightarrow> pystr \<Rightarrow> effect list" where
  \<open>do_GET loads run now path =
     (if path \<in> set [py ''/'', py ''/health''] then
        SubprocessRun [probe_path] 10 #
        (case health_try loads run now of
           Inr sent \<Rightarrow> sent
         | Inl e \<Rightarrow>
             if exn_class e = TimeoutExpired
             then send_error_response (py ''Health check timed out'') now
             else send_error_response (py ''Health check error: '' @ exn_str e) now)
      else if path = py ''/ping'' then
        [SendResponse 200,
         SendHeader (py ''Content-Type'') (py ''text/plain''),
         EndHeaders,
         Write ''pong'']
      else
        [SendResponse 404,
         SendHeader (py ''Content-Type'') (py ''application/json''),
         EndHeaders,
         Write ''{"error": "Not found"}''])\<close>

text \<open>\<^verbatim>\<open>do_OPTIONS\<close> (lines 71 to 74).\<close>

definition do_OPTIONS :: "effect list" where
  "do_OPTIONS = [SendResponse 200, EndHeaders]"

text \<open>
  The dispatch of \<^verbatim>\<open>BaseHTTPRequestHandler\<close>: the method \<^verbatim>\<open>do_\<close> followed by the
  request's command is called when the class has one (\<^verbatim>\<open>HealthCheckHandler\<close> defines
  \<^verbatim>\<open>do_GET\<close> and \<^verbatim>\<open>do_OPTIONS\<close>), and the library answers 501 otherwise.
\<close>

definition handle ::
  "(pystr \<Rightarrow> exn + unit) \<Rightarrow> exn + CompletedProcess \<Rightarrow> int \<Rightarrow> pystr \<Rightarrow> pystr \<Rightarrow> effect list"
  where
  "handle loads run now command path =
     (if command = py ''GET'' then do_GET loads run now path
      else if command = py ''OPTIONS'' then do_OPTIONS
      else [SendError 501])"

text \<open>What a client sees of the effects: the status codes and the bodies written.\<close>

fun status_codes :: "effect list \<Rightarrow> nat list" where
  "status_codes [] = []"
| "status_codes (SendResponse c # es) = c # status_codes es"
| "status_codes (SendError c # es) = c # status_codes es"
| "status_codes (e # es) = status_codes es"

fun bodies :: "effect list \<Rightarrow> bytes list" where
  "bodies [] = []"
| "bodies (Write b # es) = b # bodies es"
| "bodies (e # es) = bodies es"

fun probe_invoked :: "effect list \<Rightarrow> bool" where
  "probe_invoked [] = False"
| "probe_invoked (SubprocessRun cmd t # es) = True"
| "probe_invoked (e # es) = probe_invoked es"

section \<open>A reference model of the JSON check\<close>

text \<open>
  \<^verbatim>\<open>json.loads\<close> belongs to the standard library, and the handler above is defined
  for any \<open>loads\<close>. Concrete runs of the handler use \<open>json_loads\<close> below, which accepts
  the language of the library's scanner (\<^verbatim>\<open>json.scanner\<close>, \<^verbatim>\<open>json.decoder\<close>) and
  raises \<^verbatim>\<open>JSONDecodeError\<close> on every other text. The limits of the interpreter
  (recursion depth, digits of an integer), on which the library raises other exceptions,
  are not part of it.
\<close>

text \<open>The white space \<^verbatim>\<open>json\<close> skips between tokens: space, tab, line feed, carriage return.\<close>

definition json_ws :: "nat \<Rightarrow> bool" where
  "json_ws c \<longleftrightarrow> c = 32 \<or> c = 9 \<or> c = 10 \<or> c = 13"

definition skip_ws :: "pystr \<Rightarrow> pystr" where
  "skip_ws s = dropWhile json_ws s"

definition is_digit :: "nat \<Rightarrow> bool" where
  "is_digit c \<longleftrightarrow> 48 \<le> c \<and> c \<le> 57"

definition is_hex :: "nat \<Rightarrow> bool" where
  "is_hex c \<longleftrightarrow> is_digit c \<or> (65 \<le> c \<and> c \<le> 70) \<or> (97 \<le> c \<and> c \<le> 102)"

text \<open>
  A string, read from behind its opening quote (code 34) to behind its closing quote: no
  control character, and after a backslash (code 92) one of the eight short escapes or
  \<^verbatim>\<open>u\<close> (code 117) and four hexadecimal digits. \<open>None\<close> is a \<^verbatim>\<open>JSONDecodeError\<close>.
\<close>

fun scanstring :: "pystr \<Rightarrow> pystr option" where
  "scanstring [] = None"
| "scanstring (c # cs) =
     (if c = 34 then Some cs
      else if c = 92 then
        (case cs of
           [] \<Rightarrow> None
         | e # es \<Rightarrow>
             if e = 117 then
               (case es of
                  h1 # h2 # h3 # h4 # r \<Rightarrow>
                    if is_hex h1 \<and> is_hex h2 \<and> is_hex h3 \<and> is_hex h4
                    then scanstring r else None
                | _ \<Rightarrow> None)
             else if e \<in> set [34, 92, 47, 98, 102, 110, 114, 116] then scanstring es
             else None)
      else if c < 32 then None
      else scanstring cs)"

text \<open>
  A number: an optional minus sign, \<^verbatim>\<open>0\<close> or a digit from 1 to 9 followed by digits,
  then a fraction and an exponent, each taken only when it is complete.
\<close>

definition scan_frac :: "pystr \<Rightarrow> pystr" where
  "scan_frac s =
     (case s of
        c # d # r \<Rightarrow> if c = 46 \<and> is_digit d then dropWhile is_digit r else s
      | _ \<Rightarrow> s)"

definition scan_exp :: "pystr \<Rightarrow> pystr" where
  "scan_exp s =
     (case s of
        [] \<Rightarrow> s
      | c # r \<Rightarrow>
          if c = 101 \<or> c = 69 then
            (case (case r of [] \<Rightarrow> r | g # r2 \<Rightarrow> if g = 43 \<or> g = 45 then r2 else r) of
               [] \<Rightarrow> s
             | d # r3 \<Rightarrow> if is_digit d then dropWhile is_digit r3 else s)
          else s)"

definition scan_number :: "pystr \<Rightarrow> pystr option" where
  "scan_number s =
     (case (case s of [] \<Rightarrow> s | c # cs \<Rightarrow> if c = 45 then cs else s) of
        [] \<Rightarrow> None
      | d # ds \<Rightarrow>
          if d = 48 then Some (scan_exp (scan_frac ds))
          else if 49 \<le> d \<and> d \<le> 57 then Some (scan_exp (scan_frac (dropWhile is_digit ds)))
          else None)"

text \<open>The literals, those \<^verbatim>\<open>json\<close> accepts beyond the standard included.\<close>

definition scan_literal :: "pystr \<Rightarrow> pystr option" where
  "scan_literal s =
     (if str_startswith s (py ''null'') then Some (drop 4 s)
      else if str_startswith s (py ''true'') then Some (drop 4 s)
      else if str_startswith s (py ''false'') then Some (drop 5 s)
      else if str_startswith s (py ''NaN'') then Some (drop 3 s)
      else if str_startswith s (py ''Infinity'') then Some (drop 8 s)
      else if str_startswith s (py ''-Infinity'') then Some (drop 9 s)
      else scan_number s)"

text \<open>
  A value, the elements of an array from its first value on, and the members of an object
  from behind the opening quote of a key. Each returns the text behind what it read. The
  first argument bounds the depth of the calls inside each other.
\<close>

fun scan_once :: "nat \<Rightarrow> pystr \<Rightarrow> pystr option"
  and scan_array :: "nat \<Rightarrow> pystr \<Rightarrow> pystr option"
  and scan_object :: "nat \<Rightarrow> pystr \<Rightarrow> pystr option" where
  "scan_once 0 s = None"
| "scan_once (Suc n) s =
     (case s of
        [] \<Rightarrow> None
      | c # cs \<Rightarrow>
          if c = 34 then scanstring cs
          else if c = 123 then
            (case skip_ws cs of
               [] \<Rightarrow> None
             | d # ds \<Rightarrow>
                 if d = 125 then Some ds
                 else if d = 34 then scan_object n ds
                 else None)
          else if c = 91 then
            (case skip_ws cs of
               [] \<Rightarrow> None
             | d # ds \<Rightarrow> if d = 93 then Some ds else scan_array n (d # ds))
          else scan_literal s)"
| "scan_array 0 s = None"
| "scan_array (Suc n) s =
     (case scan_once n s of
        None \<Rightarrow> None
      | Some r \<Rightarrow>
          (case skip_ws r of
             [] \<Rightarrow> None
           | d # ds \<Rightarrow>
               if d = 93 then Some ds
               else if d = 44 then scan_array n (skip_ws ds)
               else None))"
| "scan_object 0 s = None"
| "scan_object (Suc n) s =
     (case scanstring s of
        None \<Rightarrow> None
      | Some r \<Rightarrow>
          (case skip_ws r of
             [] \<Rightarrow> None
           | c # cs \<Rightarrow>
               if c \<noteq> 58 then None
               else
                 (case scan_once n (skip_ws cs) of
                    None \<Rightarrow> None
                  | Some r2 \<Rightarrow>
                      (case skip_ws r2 of
                         [] \<Rightarrow> None
                       | d # ds \<Rightarrow>
                           if d = 125 then Some ds
                           else if d = 44 then
                             (case skip_ws ds of
                                [] \<Rightarrow> None
                              | q # qs \<Rightarrow> if q = 34 then scan_object n qs else None)
                           else None))))"

text \<open>
  The document is one value between optional white space. The exception's text is not the
  library's (which adds the position); the handler never reads it.
\<close>

definition json_loads :: "pystr \<Rightarrow> exn + unit" where
  "json_loads s =
     (case scan_once (2 * length s + 1) (skip_ws s) of
        None \<Rightarrow> Inl (Exn JSONDecodeError (py ''Expecting value''))
      | Some r \<Rightarrow>
          if skip_ws r = [] then Inr () else Inl (Exn JSONDecodeError (py ''Extra data'')))"

text \<open>
  One limit of the interpreter, at its default value: converting an integer literal of more
  than 4300 digits raises \<^verbatim>\<open>ValueError\<close>, which is not a \<^verbatim>\<open>JSONDecodeError\<close>.
  \<open>json_loads_limited\<close> is \<open>json_loads\<close> with this limit for a document that is one
  unsigned integer; on every other text it is \<open>json_loads\<close>.
\<close>

definition json_loads_limited :: "pystr \<Rightarrow> exn + unit" where
  "json_loads_limited s =
     (if 4300 < length s \<and> list_all is_digit s \<and> json_loads s = Inr ()
      then Inl (Exn OtherException
             (py ''Exceeds the limit (4300 digits) for integer string conversion: value has '' @
              nat_repr (length s) @
              py '' digits; use sys.set_int_max_str_digits() to increase the limit''))
      else json_loads s)"

section \<open>The sanitisation step in the words of the specification\<close>

text \<open>
  Section 4.2, step 4: strip the output; if it contains the marker \<^verbatim>\<open>EOF\<close>, drop every
  line that begins with the probe's invocation path, join the rest and strip again. This
  definition uses the library's \<open>sublist\<close>, \<open>prefix\<close> and \<open>filter\<close>; \<open>clean_output\<close>
  above is the code.
\<close>

definition sanitize_spec :: "pystr \<Rightarrow> pystr" where
  "sanitize_spec out =
     (if sublist (py ''EOF'') (str_strip out)
      then str_strip (str_join [10]
             (filter (\<lambda>l. \<not> prefix probe_path l) (str_split 10 (str_strip out))))
      else str_strip out)"

text \<open>No line of a text begins with the probe's invocation path.\<close>

definition no_probe_line :: "pystr \<Rightarrow> bool" where
  "no_probe_line s = list_all (\<lambda>l. \<not> str_startswith l probe_path) (str_split 10 s)"

section \<open>Properties of the text operations\<close>

lemma str_startswith_prefix: "str_startswith s p \<longleftrightarrow> prefix p s"
  by (induction s p rule: str_startswith.induct) auto

lemma str_contains_sublist: "str_contains sub s \<longleftrightarrow> sublist sub s"
proof (induction s)
  case Nil
  then show ?case by simp
next
  case (Cons c cs)
  then show ?case
    by (simp add: str_startswith_prefix sublist_Cons_right)
qed

lemma json_lines_loop_filter:
  "json_lines_loop ls acc = acc @ filter (\<lambda>l. \<not> str_startswith l probe_path) ls"
  by (induction ls arbitrary: acc) auto

lemma str_split_not_Nil: "str_split sep s \<noteq> []"
  by (induction s) (auto split: list.splits)

lemma str_join_Cons: "ls \<noteq> [] \<Longrightarrow> str_join sep (l # ls) = l @ sep @ str_join sep ls"
  by (cases ls) auto

lemma str_join_split: "str_join [sep] (str_split sep s) = s"
proof (induction s)
  case Nil
  then show ?case by simp
next
  case (Cons c cs)
  show ?case
  proof (cases "c = sep")
    case True
    with Cons show ?thesis by (simp add: str_join_Cons str_split_not_Nil)
  next
    case False
    obtain l ls where ls: "str_split sep cs = l # ls"
      using str_split_not_Nil [of sep cs] by (cases "str_split sep cs") auto
    with Cons False show ?thesis by (cases ls) auto
  qed
qed

lemma str_split_no_sep: "l \<in> set (str_split sep s) \<Longrightarrow> sep \<notin> set l"
  by (induction s arbitrary: l) (auto split: if_splits list.splits)

lemma dropWhile_rev_hd:
  assumes "t = [] \<or> \<not> P (hd t)"
  shows "dropWhile P (rev (dropWhile P (rev t))) = rev (dropWhile P (rev t))"
proof (cases t)
  case Nil
  then show ?thesis by simp
next
  case (Cons x xs)
  with assms have nx: "\<not> P x" by simp
  have "rev (dropWhile P (rev (x # xs))) = x # rev (dropWhile P (rev xs))"
    using nx by (simp add: dropWhile_append)
  with Cons nx show ?thesis by simp
qed

lemma dropWhile_rev_dropWhile:
  "dropWhile P (rev (dropWhile P (rev (dropWhile P s)))) = rev (dropWhile P (rev (dropWhile P s)))"
proof (rule dropWhile_rev_hd)
  show "dropWhile P s = [] \<or> \<not> P (hd (dropWhile P s))"
    using hd_dropWhile [of P s] by blast
qed

lemma str_strip_idem: "str_strip (str_strip s) = str_strip s"
  by (simp add: str_strip_def str_lstrip_def str_rstrip_def dropWhile_rev_dropWhile)

section \<open>The bound of the reference scanner\<close>

text \<open>
  Every scanner returns a text shorter than the one it was given, so a value nested in a
  text of length \<open>k\<close> needs fewer than \<open>2 * k + 1\<close> calls inside each other. From this
  bound on, a larger first argument never changes the result: \<open>json_loads\<close> rejects a text
  because of its characters, never because the bound was reached.
\<close>

lemma length_skip_ws: "length (skip_ws s) \<le> length s"
  by (simp add: skip_ws_def length_dropWhile_le)

lemma skip_ws_Cons_length: "skip_ws s = d # ds \<Longrightarrow> length ds < length s"
  using length_skip_ws [of s] by simp

lemma scanstring_shorter: "scanstring s = Some r \<Longrightarrow> length r < length s"
proof (induction s arbitrary: r rule: scanstring.induct)
  case 1
  then show ?case by simp
next
  case (2 c cs)
  then show ?case
    by (fastforce split: if_splits list.splits)
qed

lemma length_scan_frac: "length (scan_frac s) \<le> length s"
  using length_dropWhile_le [of is_digit]
  by (auto simp add: scan_frac_def le_Suc_eq split: list.splits)

lemma length_scan_exp: "length (scan_exp s) \<le> length s"
  using length_dropWhile_le [of is_digit]
  by (auto simp add: scan_exp_def le_Suc_eq split: list.splits)

lemma length_scan_tail: "length (scan_exp (scan_frac s)) \<le> length s"
  using length_scan_exp [of "scan_frac s"] length_scan_frac [of s] by simp

lemma scan_number_shorter: "scan_number s = Some r \<Longrightarrow> length r < length s"
  using length_scan_tail length_dropWhile_le [of is_digit]
  by (fastforce simp add: scan_number_def less_Suc_eq_le intro: order_trans
      split: list.splits if_splits)

lemma str_startswith_length: "str_startswith s p \<Longrightarrow> length p \<le> length s"
  by (induction s p rule: str_startswith.induct) auto

lemma scan_literal_shorter: "scan_literal s = Some r \<Longrightarrow> length r < length s"
  by (auto simp add: scan_literal_def py_def scan_number_shorter
      dest!: str_startswith_length split: if_splits)

lemma scan_shorter:
  "(scan_once n s = Some r \<longrightarrow> length r < length s) \<and>
   (scan_array n s = Some r \<longrightarrow> length r < length s) \<and>
   (scan_object n s = Some r \<longrightarrow> length r < length s)"
proof (induction n arbitrary: s r)
  case 0
  then show ?case by simp
next
  case (Suc n)
  have once: "length r' < length s'" if "scan_once n s' = Some r'" for s' r'
    using Suc that by blast
  have array: "length r' < length s'" if "scan_array n s' = Some r'" for s' r'
    using Suc that by blast
  have object: "length r' < length s'" if "scan_object n s' = Some r'" for s' r'
    using Suc that by blast
  have "length r < length s" if "scan_once (Suc n) s = Some r"
    using that
    by (auto simp add: less_Suc_eq
        dest!: scanstring_shorter scan_literal_shorter array object skip_ws_Cons_length
        split: list.splits if_splits)
  moreover have "length r < length s" if a: "scan_array (Suc n) s = Some r"
  proof -
    from a obtain r1 d ds where r1: "scan_once n s = Some r1" and ds: "skip_ws r1 = d # ds"
      and rest: "d = 93 \<and> r = ds \<or> d = 44 \<and> scan_array n (skip_ws ds) = Some r"
      by (auto split: list.splits if_splits option.splits)
    from r1 have "length r1 < length s" by (rule once)
    moreover from ds have "length ds < length r1" by (rule skip_ws_Cons_length)
    moreover from rest have "length r \<le> length ds"
      using array [of "skip_ws ds" r] length_skip_ws [of ds] by auto
    ultimately show ?thesis by simp
  qed
  moreover have "length r < length s" if a: "scan_object (Suc n) s = Some r"
  proof -
    from a obtain r1 c cs r2 d ds where r1: "scanstring s = Some r1"
      and cs: "skip_ws r1 = c # cs" and r2: "scan_once n (skip_ws cs) = Some r2"
      and ds: "skip_ws r2 = d # ds"
      and rest: "d = 125 \<and> r = ds \<or>
        d = 44 \<and> (\<exists>qs. skip_ws ds = 34 # qs \<and> scan_object n qs = Some r)"
      by (auto split: list.splits if_splits option.splits)
    from r1 have "length r1 < length s" by (rule scanstring_shorter)
    moreover from cs have "length cs < length r1" by (rule skip_ws_Cons_length)
    moreover from r2 have "length r2 < length cs"
      using once [of "skip_ws cs" r2] length_skip_ws [of cs] by simp
    moreover from ds have "length ds < length r2" by (rule skip_ws_Cons_length)
    moreover from rest have "length r \<le> length ds"
    proof
      assume "d = 125 \<and> r = ds"
      then show ?thesis by simp
    next
      assume "d = 44 \<and> (\<exists>qs. skip_ws ds = 34 # qs \<and> scan_object n qs = Some r)"
      then obtain qs where "skip_ws ds = 34 # qs" and "scan_object n qs = Some r"
        by blast
      then show ?thesis
        using object [of qs r] skip_ws_Cons_length [of ds 34 qs] by simp
    qed
    ultimately show ?thesis by simp
  qed
  ultimately show ?case by blast
qed

lemma scan_stable:
  "(2 * length s + 1 \<le> n \<longrightarrow> scan_once (Suc n) s = scan_once n s) \<and>
   (2 * length s + 2 \<le> n \<longrightarrow> scan_array (Suc n) s = scan_array n s) \<and>
   (2 * length s + 2 \<le> n \<longrightarrow> scan_object (Suc n) s = scan_object n s)"
proof (induction n arbitrary: s)
  case 0
  then show ?case by simp
next
  case (Suc n)
  note [simp del] = scan_once.simps scan_array.simps scan_object.simps
  have once: "scan_once (Suc n) t = scan_once n t" if "2 * length t + 1 \<le> n" for t
    using Suc that by blast
  have array: "scan_array (Suc n) t = scan_array n t" if "2 * length t + 2 \<le> n" for t
    using Suc that by blast
  have object: "scan_object (Suc n) t = scan_object n t" if "2 * length t + 2 \<le> n" for t
    using Suc that by blast
  have "scan_once (Suc (Suc n)) s = scan_once (Suc n) s" if n: "2 * length s + 1 \<le> Suc n"
  proof (cases "skip_ws (tl s)")
    case Nil
    then show ?thesis
      by (cases s) (simp_all add: scan_once.simps(2) [of "Suc n"] scan_once.simps(2) [of n])
  next
    case (Cons d ds)
    then have "length ds < length (tl s)" by (rule skip_ws_Cons_length)
    with n have "2 * length ds + 2 \<le> n" and "2 * length (d # ds) + 2 \<le> n"
      by simp_all
    then have "scan_object (Suc n) ds = scan_object n ds"
      and "scan_array (Suc n) (d # ds) = scan_array n (d # ds)"
      by (simp_all add: object array)
    with Cons show ?thesis
      by (cases s) (simp_all add: scan_once.simps(2) [of "Suc n"] scan_once.simps(2) [of n])
  qed
  moreover have "scan_array (Suc (Suc n)) s = scan_array (Suc n) s"
    if n: "2 * length s + 2 \<le> Suc n"
  proof -
    note unfold = scan_array.simps(2) [of "Suc n" s] scan_array.simps(2) [of n s]
    from n have first: "scan_once (Suc n) s = scan_once n s"
      by (intro once) simp
    show ?thesis
    proof (cases "scan_once n s")
      case None
      with first show ?thesis by (simp add: unfold)
    next
      case (Some r)
      then have r: "length r < length s"
        using scan_shorter by blast
      show ?thesis
      proof (cases "skip_ws r")
        case Nil
        with first Some show ?thesis by (simp add: unfold)
      next
        case (Cons d ds)
        then have "length ds < length r" by (rule skip_ws_Cons_length)
        with r n have "2 * length (skip_ws ds) + 2 \<le> n"
          using length_skip_ws [of ds] by simp
        then have "scan_array (Suc n) (skip_ws ds) = scan_array n (skip_ws ds)"
          by (rule array)
        with first Some Cons show ?thesis by (simp add: unfold)
      qed
    qed
  qed
  moreover have "scan_object (Suc (Suc n)) s = scan_object (Suc n) s"
    if n: "2 * length s + 2 \<le> Suc n"
  proof (cases "scanstring s")
    note unfold = scan_object.simps(2) [of "Suc n" s] scan_object.simps(2) [of n s]
    case None
    then show ?thesis by (simp add: unfold)
  next
    note unfold = scan_object.simps(2) [of "Suc n" s] scan_object.simps(2) [of n s]
    case (Some r1)
    then have r1: "length r1 < length s" by (rule scanstring_shorter)
    show ?thesis
    proof (cases "skip_ws r1")
      case Nil
      with Some show ?thesis by (simp add: unfold)
    next
      case (Cons c cs)
      then have cs: "length cs < length r1" by (rule skip_ws_Cons_length)
      with r1 n have "2 * length (skip_ws cs) + 1 \<le> n"
        using length_skip_ws [of cs] by simp
      then have first: "scan_once (Suc n) (skip_ws cs) = scan_once n (skip_ws cs)"
        by (rule once)
      show ?thesis
      proof (cases "scan_once n (skip_ws cs)")
        case None
        with Some Cons first show ?thesis by (simp add: unfold)
      next
        case r2: (Some r2)
        then have "length r2 < length (skip_ws cs)"
          using scan_shorter by blast
        then have l2: "length r2 < length cs"
          using length_skip_ws [of cs] by simp
        show ?thesis
        proof (cases "skip_ws r2")
          case Nil
          with Some Cons first r2 show ?thesis by (simp add: unfold)
        next
          case ds: (Cons d ds)
          then have lds: "length ds < length r2" by (rule skip_ws_Cons_length)
          show ?thesis
          proof (cases "skip_ws ds")
            case Nil
            with Some Cons first r2 ds show ?thesis by (simp add: unfold)
          next
            case qs: (Cons q qs)
            then have "length qs < length ds" by (rule skip_ws_Cons_length)
            with lds l2 cs r1 n have "2 * length qs + 2 \<le> n" by simp
            then have "scan_object (Suc n) qs = scan_object n qs" by (rule object)
            with Some Cons first r2 ds qs show ?thesis by (simp add: unfold)
          qed
        qed
      qed
    qed
  qed
  ultimately show ?case by blast
qed

lemma scan_once_enough:
  "2 * length s + 1 \<le> n \<Longrightarrow> scan_once (n + k) s = scan_once n s"
proof (induction k)
  case 0
  then show ?case by simp
next
  case (Suc k)
  then have "scan_once (Suc (n + k)) s = scan_once (n + k) s"
    using scan_stable [of s "n + k"] by simp
  with Suc show ?case by simp
qed

lemma json_loads_bound:
  assumes "2 * length s + 1 \<le> n"
  shows "json_loads s =
     (case scan_once n (skip_ws s) of
        None \<Rightarrow> Inl (Exn JSONDecodeError (py ''Expecting value''))
      | Some r \<Rightarrow>
          if skip_ws r = [] then Inr () else Inl (Exn JSONDecodeError (py ''Extra data'')))"
proof -
  have "2 * length (skip_ws s) + 1 \<le> 2 * length s + 1"
    using length_skip_ws [of s] by simp
  then have "scan_once (2 * length s + 1 + (n - (2 * length s + 1))) (skip_ws s) =
      scan_once (2 * length s + 1) (skip_ws s)"
    by (rule scan_once_enough)
  with assms show ?thesis
    by (simp add: json_loads_def)
qed

section \<open>The serialised envelope determines the clock reading\<close>

text \<open>
  The decimal form of an integer determines the integer, and it is the only part of the
  serialised envelope that depends on the clock: two envelopes with the same message are the
  same bytes exactly when their timestamps are equal.
\<close>

lemma utf8_encode_append: "utf8_encode (a @ b) = utf8_encode a @ utf8_encode b"
  by (simp add: utf8_encode_def)

lemma utf8_encode_low:
  "\<forall>c\<in>set s. c < 128 \<Longrightarrow> map of_char (utf8_encode s) = s"
  by (induction s) (simp_all add: utf8_encode_def utf8_char_def)

lemma nat_repr_not_Nil: "nat_repr n \<noteq> []"
  by (subst nat_repr.simps) simp

lemma nat_repr_small: "n < 10 \<Longrightarrow> nat_repr n = [48 + n]"
  by (subst nat_repr.simps) simp

lemma nat_repr_step: "\<not> n < 10 \<Longrightarrow> nat_repr n = nat_repr (n div 10) @ [48 + n mod 10]"
  by (subst nat_repr.simps) simp

lemma nat_repr_digits: "c \<in> set (nat_repr n) \<Longrightarrow> 48 \<le> c \<and> c \<le> 57"
proof (induction n rule: nat_repr.induct)
  case (1 n)
  show ?case
  proof (cases "n < 10")
    case True
    with "1.prems" show ?thesis by (simp add: nat_repr_small)
  next
    case False
    with "1.prems" have "c \<in> set (nat_repr (n div 10)) \<or> c = 48 + n mod 10"
      by (auto simp add: nat_repr_step)
    then show ?thesis
    proof
      assume "c \<in> set (nat_repr (n div 10))"
      with False show ?thesis using "1.IH" by blast
    next
      assume "c = 48 + n mod 10"
      moreover have "n mod 10 < 10" by simp
      ultimately show ?thesis by linarith
    qed
  qed
qed

lemma nat_repr_inject: "nat_repr n = nat_repr m \<Longrightarrow> n = m"
proof (induction n arbitrary: m rule: nat_repr.induct)
  case (1 n m)
  show ?case
  proof (cases "n < 10")
    case n: True
    show ?thesis
    proof (cases "m < 10")
      case True
      from "1.prems" show ?thesis
        by (simp add: nat_repr_small [OF n] nat_repr_small [OF True])
    next
      case False
      from "1.prems" have "[48 + n] = nat_repr (m div 10) @ [48 + m mod 10]"
        by (simp only: nat_repr_small [OF n] nat_repr_step [OF False])
      then have "nat_repr (m div 10) = []"
        by (simp add: Cons_eq_append_conv)
      then show ?thesis
        using nat_repr_not_Nil [of "m div 10"] by blast
    qed
  next
    case n: False
    show ?thesis
    proof (cases "m < 10")
      case True
      from "1.prems" have "nat_repr (n div 10) @ [48 + n mod 10] = [48 + m]"
        by (simp only: nat_repr_small [OF True] nat_repr_step [OF n])
      then have "nat_repr (n div 10) = []"
        by (simp add: append_eq_Cons_conv)
      then show ?thesis
        using nat_repr_not_Nil [of "n div 10"] by blast
    next
      case False
      from "1.prems" have
        "nat_repr (n div 10) @ [48 + n mod 10] = nat_repr (m div 10) @ [48 + m mod 10]"
        by (simp only: nat_repr_step [OF n] nat_repr_step [OF False])
      then have tens: "nat_repr (n div 10) = nat_repr (m div 10)"
        and units: "n mod 10 = m mod 10"
        by simp_all
      from n tens have "n div 10 = m div 10"
        by (rule "1.IH")
      then have "10 * (n div 10) + n mod 10 = 10 * (m div 10) + m mod 10"
        using units by (simp only:)
      then show ?thesis
        by (simp only: mult_div_mod_eq)
    qed
  qed
qed

lemma nat_repr_eq_iff: "nat_repr n = nat_repr m \<longleftrightarrow> n = m"
  using nat_repr_inject by blast

lemma int_repr_inject: "int_repr i = int_repr j \<Longrightarrow> i = j"
proof -
  assume eq: "int_repr i = int_repr j"
  have no_minus: "nat_repr n \<noteq> 45 # r" for n r
  proof
    assume "nat_repr n = 45 # r"
    then have "45 \<in> set (nat_repr n)" by simp
    then show False using nat_repr_digits [of 45 n] by simp
  qed
  show "i = j"
  proof (cases "i < 0")
    case i: True
    show ?thesis
    proof (cases "j < 0")
      case True
      with i eq have "nat (- i) = nat (- j)"
        by (simp add: int_repr_def nat_repr_eq_iff)
      with i True show ?thesis by simp
    next
      case False
      with i eq show ?thesis
        using no_minus [of "nat j" "nat_repr (nat (- i))"] by (simp add: int_repr_def)
    qed
  next
    case i: False
    show ?thesis
    proof (cases "j < 0")
      case True
      with i eq show ?thesis
        using no_minus [of "nat i" "nat_repr (nat (- j))"] by (simp add: int_repr_def)
    next
      case False
      with i eq have "nat i = nat j"
        by (simp add: int_repr_def nat_repr_eq_iff)
      with i False show ?thesis by simp
    qed
  qed
qed

lemma int_repr_low: "c \<in> set (int_repr i) \<Longrightarrow> c < 128"
  by (fastforce simp add: int_repr_def dest: nat_repr_digits split: if_splits)

lemma utf8_int_repr:
  "map of_char (utf8_encode (int_repr i)) = int_repr i"
proof (rule utf8_encode_low)
  show "\<forall>c\<in>set (int_repr i). c < 128"
    using int_repr_low by blast
qed

lemma utf8_int_repr_inject:
  assumes "utf8_encode (int_repr i) = utf8_encode (int_repr j)"
  shows "i = j"
proof -
  have "int_repr i = map of_char (utf8_encode (int_repr i))"
    by (simp only: utf8_int_repr)
  also have "\<dots> = map of_char (utf8_encode (int_repr j))"
    by (simp only: assms)
  also have "\<dots> = int_repr j"
    by (simp only: utf8_int_repr)
  finally show ?thesis
    by (rule int_repr_inject)
qed

lemma envelope_timestamp_inject:
  "utf8_encode (json_dumps \<lparr>status = s, message = m, timestamp = t1\<rparr>) =
   utf8_encode (json_dumps \<lparr>status = s, message = m, timestamp = t2\<rparr>) \<longleftrightarrow> t1 = t2"
proof
  assume "utf8_encode (json_dumps \<lparr>status = s, message = m, timestamp = t1\<rparr>) =
    utf8_encode (json_dumps \<lparr>status = s, message = m, timestamp = t2\<rparr>)"
  then have "utf8_encode (int_repr t1) = utf8_encode (int_repr t2)"
    by (simp add: json_dumps_def utf8_encode_append)
  then show "t1 = t2" by (rule utf8_int_repr_inject)
next
  assume "t1 = t2"
  then show "utf8_encode (json_dumps \<lparr>status = s, message = m, timestamp = t1\<rparr>) =
    utf8_encode (json_dumps \<lparr>status = s, message = m, timestamp = t2\<rparr>)"
    by simp
qed

section \<open>Properties of the handler\<close>

lemma str_contains_suffix: "str_contains sub (pre @ sub)"
  by (simp add: str_contains_sublist)

lemma utf8_char_ascii: "of_char c < (128::nat) \<Longrightarrow> utf8_char (of_char c) = [c]"
  by (simp add: utf8_char_def)

lemma utf8_encode_ascii:
  "list_all (\<lambda>c. of_char c < (128::nat)) s \<Longrightarrow> utf8_encode (py s) = s"
  by (induction s) (simp_all add: utf8_encode_def py_def utf8_char_ascii)

lemma clean_output_refines: "clean_output out = sanitize_spec out"
  by (simp add: clean_output_def sanitize_spec_def Let_def str_contains_sublist
      json_lines_loop_filter str_startswith_prefix)

lemmas text_eval =
  py_def probe_path_def clean_output_def str_strip_def str_lstrip_def str_rstrip_def
  isspace_def no_probe_line_def

lemma clean_status_ok: \<open>clean_output (py ''{"status":"ok"}'') = py ''{"status":"ok"}''\<close>
  by (simp add: text_eval)

lemma loads_status_ok: \<open>json_loads (py ''{"status":"ok"}'') = Inr ()\<close>
  by code_simp

lemma utf8_status_ok: \<open>utf8_encode (py ''{"status":"ok"}'') = ''{"status":"ok"}''\<close>
  by (rule utf8_encode_ascii) simp

lemma clean_not_json: "clean_output (py ''not json'') = py ''not json''"
  by (simp add: text_eval)

lemma loads_not_json:
  "json_loads (py ''not json'') = Inl (Exn JSONDecodeError (py ''Expecting value''))"
  by code_simp

lemma clean_output_no_probe_line:
  assumes "no_probe_line (str_strip out)"
  shows "clean_output out = str_strip out"
proof -
  have "filter (\<lambda>l. \<not> str_startswith l probe_path) (str_split 10 (str_strip out)) =
      str_split 10 (str_strip out)"
    using assms by (simp add: no_probe_line_def list_all_iff)
  then show ?thesis
    by (simp add: clean_output_def Let_def json_lines_loop_filter str_join_split str_strip_idem)
qed

lemma do_GET_shape:
  "(\<forall>now. do_GET loads run now path = do_GET loads run 0 path \<and>
          status_codes (do_GET loads run now path) \<noteq> [500]) \<or>
   (\<exists>msg. \<forall>now. do_GET loads run now path =
          SubprocessRun [probe_path] 10 # send_error_response msg now)"
  by (auto simp add: do_GET_def health_try_def Let_def send_error_response_def
      split: sum.splits)

lemma status_codes_error [simp]:
  "status_codes (SubprocessRun c t # send_error_response msg now) = [500]"
  by (simp add: send_error_response_def)

lemma bodies_error [simp]:
  "bodies (SubprocessRun c t # send_error_response msg now) =
     [utf8_encode (json_dumps \<lparr>status = py ''error'', message = msg, timestamp = now\<rparr>)]"
  by (simp add: send_error_response_def)

lemma handle_shape:
  "(\<forall>now. handle loads run now command path = handle loads run 0 command path \<and>
          status_codes (handle loads run now command path) \<noteq> [500]) \<or>
   (\<exists>msg. \<forall>now. handle loads run now command path =
          SubprocessRun [probe_path] 10 # send_error_response msg now)"
  using do_GET_shape [of loads run path]
  by (auto simp add: handle_def do_OPTIONS_def)

lemma health_sent_200:
  assumes "path = py ''/'' \<or> path = py ''/health''"
    and "returncode result = 0"
    and "loads (clean_output (stdout result)) = Inr v"
  shows "do_GET loads (Inr result) now path =
     [SubprocessRun [probe_path] 10,
      SendResponse 200,
      SendHeader (py ''Content-Type'') (py ''application/json''),
      EndHeaders,
      Write (utf8_encode (clean_output (stdout result)))]"
  using assms by (auto simp add: do_GET_def health_try_def)

lemma clean_repaired:
  \<open>clean_output
     (py ''/usr/local/bin/global-health-check.sh: line 9: warning: wanted EOF\<newline>{"status":"ok"}\<newline>'') =
   py ''{"status":"ok"}''\<close>
  by (simp add: text_eval)

lemma clean_quoted: \<open>clean_output (py '' {"note":"EOF"}\<newline>'') = py ''{"note":"EOF"}''\<close>
  by (simp add: text_eval)

lemma strip_quoted: \<open>str_strip (py '' {"note":"EOF"}\<newline>'') = py ''{"note":"EOF"}''\<close>
  by (simp add: text_eval)

lemma loads_quoted: \<open>json_loads (py ''{"note":"EOF"}'') = Inr ()\<close>
  by code_simp

lemma utf8_quoted: \<open>utf8_encode (py ''{"note":"EOF"}'') = ''{"note":"EOF"}''\<close>
  by (rule utf8_encode_ascii) simp

lemma clean_output_ones: "clean_output (replicate k 49) = replicate k 49"
proof -
  have "\<not> sublist (py ''EOF'') (replicate k 49)"
  proof
    assume "sublist (py ''EOF'') (replicate k 49)"
    then have "set (py ''EOF'') \<subseteq> set (replicate k 49)"
      by (rule set_mono_sublist)
    then show False
      by (simp add: py_def split: if_splits)
  qed
  then show ?thesis
    by (simp add: clean_output_def Let_def str_contains_sublist str_strip_def str_lstrip_def
        str_rstrip_def isspace_def)
qed

lemma json_loads_ones: "json_loads (replicate (Suc k) 49) = Inr ()"
  by (simp add: json_loads_def skip_ws_def json_ws_def scan_literal_def scan_number_def
      scan_frac_def scan_exp_def is_digit_def py_def)

lemma json_loads_limited_ones:
  "json_loads_limited (replicate 4301 49) =
     Inl (Exn OtherException
       (py ''Exceeds the limit (4300 digits) for integer string conversion: value has 4301 digits; use sys.set_int_max_str_digits() to increase the limit''))"
proof -
  have "json_loads (replicate 4301 49) = Inr ()"
    using json_loads_ones [of 4300] by simp
  moreover have "list_all is_digit (replicate 4301 49)"
    by (simp add: list_all_iff is_digit_def)
  moreover have "nat_repr 4301 = py ''4301''"
    by (simp add: nat_repr.simps py_def)
  ultimately show ?thesis
    by (simp add: json_loads_limited_def py_def)
qed

lemma do_GET_ones:
  "do_GET json_loads_limited
      (Inr \<lparr>returncode = 0, stdout = replicate 4301 49, stderr = []\<rparr>) 0 (py ''/health'') =
     [SubprocessRun [probe_path] 10,
      SendResponse 500,
      SendHeader (py ''Content-Type'') (py ''application/json''),
      EndHeaders,
      Write (utf8_encode (json_dumps
        \<lparr>status = py ''error'',
         message = py ''Health check error: '' @
           py ''Exceeds the limit (4300 digits) for integer string conversion: value has 4301 digits; use sys.set_int_max_str_digits() to increase the limit'',
         timestamp = 0\<rparr>))]"
  by (simp add: do_GET_def health_try_def send_error_response_def clean_output_ones
      json_loads_limited_ones)

lemma error_message_differs:
  "utf8_encode (json_dumps
     \<lparr>status = s, message = py ''Health check error: '' @ m, timestamp = t\<rparr>) \<noteq>
   utf8_encode (json_dumps
     \<lparr>status = s, message = py ''Invalid JSON output from health check'', timestamp = t\<rparr>)"
  by (simp add: json_dumps_def json_str_def escape_char_def utf8_encode_append utf8_encode_def
      utf8_char_def py_def)

section \<open>The claims\<close>

text \<open>
  C1. A GET request to \<^verbatim>\<open>/\<close> or \<^verbatim>\<open>/health\<close> whose probe exits with code 0 and whose
  cleaned output parses as JSON is answered with status 200, content type
  \<^verbatim>\<open>application/json\<close> and the encoded cleaned text itself as the body; for the probe
  output \<^verbatim>\<open>{"status":"ok"}\<close> the body is exactly these bytes.
\<close>

theorem health_valid_json_passthrough:
  assumes "path = py ''/'' \<or> path = py ''/health''"
    and "returncode result = 0"
    and "loads (clean_output (stdout result)) = Inr v"
  shows \<open>do_GET loads (Inr result) now path =
     [SubprocessRun [probe_path] 10,
      SendResponse 200,
      SendHeader (py ''Content-Type'') (py ''application/json''),
      EndHeaders,
      Write (utf8_encode (clean_output (stdout result)))]
   \<and> (stdout result = py ''{"status":"ok"}'' \<longrightarrow>
        do_GET loads (Inr result) now path =
          [SubprocessRun [probe_path] 10,
           SendResponse 200,
           SendHeader (py ''Content-Type'') (py ''application/json''),
           EndHeaders,
           Write ''{"status":"ok"}''])\<close>
proof (intro conjI impI)
  show sent: "do_GET loads (Inr result) now path =
     [SubprocessRun [probe_path] 10,
      SendResponse 200,
      SendHeader (py ''Content-Type'') (py ''application/json''),
      EndHeaders,
      Write (utf8_encode (clean_output (stdout result)))]"
    using assms by (auto simp add: do_GET_def health_try_def)
  assume \<open>stdout result = py ''{"status":"ok"}''\<close>
  then have \<open>utf8_encode (clean_output (stdout result)) = ''{"status":"ok"}''\<close>
    by (simp only: clean_status_ok utf8_status_ok)
  with sent show \<open>do_GET loads (Inr result) now path =
     [SubprocessRun [probe_path] 10,
      SendResponse 200,
      SendHeader (py ''Content-Type'') (py ''application/json''),
      EndHeaders,
      Write ''{"status":"ok"}'']\<close>
    by (simp only:)
qed

theorem health_valid_json_passthrough_witness:
  \<open>do_GET json_loads
      (Inr \<lparr>returncode = 0, stdout = py ''{"status":"ok"}'', stderr = []\<rparr>) 0 (py ''/health'') =
     [SubprocessRun [probe_path] 10,
      SendResponse 200,
      SendHeader (py ''Content-Type'') (py ''application/json''),
      EndHeaders,
      Write ''{"status":"ok"}'']\<close>
  (is "?sent")
proof -
  let ?r = \<open>\<lparr>returncode = 0, stdout = py ''{"status":"ok"}'', stderr = []\<rparr>\<close>
  have \<open>do_GET json_loads (Inr ?r) 0 (py ''/health'') =
     [SubprocessRun [probe_path] 10,
      SendResponse 200,
      SendHeader (py ''Content-Type'') (py ''application/json''),
      EndHeaders,
      Write (utf8_encode (clean_output (stdout ?r)))]
   \<and> (stdout ?r = py ''{"status":"ok"}'' \<longrightarrow> ?sent)\<close>
    by (rule health_valid_json_passthrough [where v = "()"])
      (simp_all add: clean_status_ok loads_status_ok)
  then have \<open>stdout ?r = py ''{"status":"ok"}'' \<longrightarrow> ?sent\<close>
    by (rule conjunct2)
  moreover have \<open>stdout ?r = py ''{"status":"ok"}''\<close>
    by simp
  ultimately show ?sent
    by (rule mp)
qed

text \<open>
  C2. A GET request to \<^verbatim>\<open>/\<close> or \<^verbatim>\<open>/health\<close> whose probe run times out is answered with
  status 500 and the error envelope whose message is \<^verbatim>\<open>Health check timed out\<close>.
\<close>

theorem health_timeout:
  assumes "path = py ''/'' \<or> path = py ''/health''"
    and "exn_class e = TimeoutExpired"
  shows "do_GET loads (Inl e) now path =
     [SubprocessRun [probe_path] 10,
      SendResponse 500,
      SendHeader (py ''Content-Type'') (py ''application/json''),
      EndHeaders,
      Write (utf8_encode (json_dumps
        \<lparr>status = py ''error'', message = py ''Health check timed out'', timestamp = now\<rparr>))]"
  using assms by (auto simp add: do_GET_def health_try_def send_error_response_def)

theorem health_timeout_witness:
  "do_GET json_loads (Inl (Exn TimeoutExpired [])) 0 (py ''/health'') =
     [SubprocessRun [probe_path] 10,
      SendResponse 500,
      SendHeader (py ''Content-Type'') (py ''application/json''),
      EndHeaders,
      Write (utf8_encode (json_dumps
        \<lparr>status = py ''error'', message = py ''Health check timed out'', timestamp = 0\<rparr>))]"
  by (rule health_timeout) simp_all

text \<open>
  C3. A GET request to \<^verbatim>\<open>/\<close> or \<^verbatim>\<open>/health\<close> whose probe exits with a code other than 0
  is answered with status 500 and an error envelope whose message contains the probe's
  standard error text.
\<close>

theorem health_nonzero_exit:
  assumes "path = py ''/'' \<or> path = py ''/health''"
    and "returncode result \<noteq> 0"
  shows "do_GET loads (Inr result) now path =
     [SubprocessRun [probe_path] 10,
      SendResponse 500,
      SendHeader (py ''Content-Type'') (py ''application/json''),
      EndHeaders,
      Write (utf8_encode (json_dumps
        \<lparr>status = py ''error'',
         message = py ''Health check script failed: '' @ stderr result,
         timestamp = now\<rparr>))]
   \<and> str_contains (stderr result) (py ''Health check script failed: '' @ stderr result)"
  using assms
  by (auto simp add: do_GET_def health_try_def send_error_response_def str_contains_suffix)

theorem health_nonzero_exit_witness:
  "do_GET json_loads (Inr \<lparr>returncode = 1, stdout = [], stderr = py ''boom''\<rparr>) 0 (py ''/'') =
     [SubprocessRun [probe_path] 10,
      SendResponse 500,
      SendHeader (py ''Content-Type'') (py ''application/json''),
      EndHeaders,
      Write (utf8_encode (json_dumps
        \<lparr>status = py ''error'',
         message = py ''Health check script failed: '' @ py ''boom'',
         timestamp = 0\<rparr>))]
   \<and> str_contains (py ''boom'') (py ''Health check script failed: '' @ py ''boom'')"
  using health_nonzero_exit
    [of "py ''/''" "\<lparr>returncode = 1, stdout = [], stderr = py ''boom''\<rparr>" json_loads 0]
  by simp

text \<open>
  C4. A GET request to \<^verbatim>\<open>/\<close> or \<^verbatim>\<open>/health\<close> whose probe exits with code 0 but on
  whose cleaned output the JSON check raises is answered with status 500 and an error
  envelope. Its message is \<^verbatim>\<open>Invalid JSON output from health check\<close> when the exception
  is a \<^verbatim>\<open>JSONDecodeError\<close>; after any other exception that is not a timeout it is
  \<^verbatim>\<open>Health check error: \<close> followed by the text of the exception, as for an integer of
  4301 digits.
\<close>

theorem health_invalid_json:
  assumes "path = py ''/'' \<or> path = py ''/health''"
    and "returncode result = 0"
    and "loads (clean_output (stdout result)) = Inl e"
  shows "status_codes (do_GET loads (Inr result) now path) = [500]
   \<and> (exn_class e = JSONDecodeError \<longrightarrow>
        do_GET loads (Inr result) now path =
          [SubprocessRun [probe_path] 10,
           SendResponse 500,
           SendHeader (py ''Content-Type'') (py ''application/json''),
           EndHeaders,
           Write (utf8_encode (json_dumps
             \<lparr>status = py ''error'',
              message = py ''Invalid JSON output from health check'',
              timestamp = now\<rparr>))])
   \<and> (exn_class e = OtherException \<longrightarrow>
        do_GET loads (Inr result) now path =
          [SubprocessRun [probe_path] 10,
           SendResponse 500,
           SendHeader (py ''Content-Type'') (py ''application/json''),
           EndHeaders,
           Write (utf8_encode (json_dumps
             \<lparr>status = py ''error'',
              message = py ''Health check error: '' @ exn_str e,
              timestamp = now\<rparr>))])"
  using assms
  by (cases "exn_class e")
    (auto simp add: do_GET_def health_try_def send_error_response_def)

theorem health_invalid_json_witness:
  "do_GET json_loads
      (Inr \<lparr>returncode = 0, stdout = py ''not json'', stderr = []\<rparr>) 0 (py ''/health'') =
     [SubprocessRun [probe_path] 10,
      SendResponse 500,
      SendHeader (py ''Content-Type'') (py ''application/json''),
      EndHeaders,
      Write (utf8_encode (json_dumps
        \<lparr>status = py ''error'',
         message = py ''Invalid JSON output from health check'',
         timestamp = 0\<rparr>))]
   \<and> do_GET json_loads_limited
      (Inr \<lparr>returncode = 0, stdout = replicate 4301 49, stderr = []\<rparr>) 0 (py ''/health'') =
     [SubprocessRun [probe_path] 10,
      SendResponse 500,
      SendHeader (py ''Content-Type'') (py ''application/json''),
      EndHeaders,
      Write (utf8_encode (json_dumps
        \<lparr>status = py ''error'',
         message = py ''Health check error: '' @
           py ''Exceeds the limit (4300 digits) for integer string conversion: value has 4301 digits; use sys.set_int_max_str_digits() to increase the limit'',
         timestamp = 0\<rparr>))]"
proof (rule conjI)
  let ?r = "\<lparr>returncode = 0, stdout = py ''not json'', stderr = []\<rparr>"
  let ?e = "Exn JSONDecodeError (py ''Expecting value'')"
  have "json_loads (clean_output (stdout ?r)) = Inl ?e"
    by (simp add: clean_not_json loads_not_json)
  then show "do_GET json_loads (Inr ?r) 0 (py ''/health'') =
     [SubprocessRun [probe_path] 10,
      SendResponse 500,
      SendHeader (py ''Content-Type'') (py ''application/json''),
      EndHeaders,
      Write (utf8_encode (json_dumps
        \<lparr>status = py ''error'',
         message = py ''Invalid JSON output from health check'',
         timestamp = 0\<rparr>))]"
    using health_invalid_json [of "py ''/health''" ?r json_loads ?e 0] by simp
next
  let ?r = "\<lparr>returncode = 0, stdout = replicate 4301 49, stderr = []\<rparr>"
  let ?e = "Exn OtherException
       (py ''Exceeds the limit (4300 digits) for integer string conversion: value has 4301 digits; use sys.set_int_max_str_digits() to increase the limit'')"
  have "json_loads_limited (clean_output (stdout ?r)) = Inl ?e"
    by (simp add: clean_output_ones json_loads_limited_ones)
  then show "do_GET json_loads_limited (Inr ?r) 0 (py ''/health'') =
     [SubprocessRun [probe_path] 10,
      SendResponse 500,
      SendHeader (py ''Content-Type'') (py ''application/json''),
      EndHeaders,
      Write (utf8_encode (json_dumps
        \<lparr>status = py ''error'',
         message = py ''Health check error: '' @
           py ''Exceeds the limit (4300 digits) for integer string conversion: value has 4301 digits; use sys.set_int_max_str_digits() to increase the limit'',
         timestamp = 0\<rparr>))]"
    using health_invalid_json [of "py ''/health''" ?r json_loads_limited ?e 0] by simp
qed

theorem invalid_json_message_counterexample:
  "json_loads_limited (clean_output (replicate 4301 49)) =
     Inl (Exn OtherException
       (py ''Exceeds the limit (4300 digits) for integer string conversion: value has 4301 digits; use sys.set_int_max_str_digits() to increase the limit''))
   \<and> do_GET json_loads_limited
      (Inr \<lparr>returncode = 0, stdout = replicate 4301 49, stderr = []\<rparr>) 0 (py ''/health'') =
     [SubprocessRun [probe_path] 10,
      SendResponse 500,
      SendHeader (py ''Content-Type'') (py ''application/json''),
      EndHeaders,
      Write (utf8_encode (json_dumps
        \<lparr>status = py ''error'',
         message = py ''Health check error: '' @
           py ''Exceeds the limit (4300 digits) for integer string conversion: value has 4301 digits; use sys.set_int_max_str_digits() to increase the limit'',
         timestamp = 0\<rparr>))]
   \<and> do_GET json_loads_limited
      (Inr \<lparr>returncode = 0, stdout = replicate 4301 49, stderr = []\<rparr>) 0 (py ''/health'') \<noteq>
     [SubprocessRun [probe_path] 10,
      SendResponse 500,
      SendHeader (py ''Content-Type'') (py ''application/json''),
      EndHeaders,
      Write (utf8_encode (json_dumps
        \<lparr>status = py ''error'',
         message = py ''Invalid JSON output from health check'',
         timestamp = 0\<rparr>))]"
proof (intro conjI)
  show "json_loads_limited (clean_output (replicate 4301 49)) =
     Inl (Exn OtherException
       (py ''Exceeds the limit (4300 digits) for integer string conversion: value has 4301 digits; use sys.set_int_max_str_digits() to increase the limit''))"
    by (simp only: clean_output_ones json_loads_limited_ones)
  show "do_GET json_loads_limited
      (Inr \<lparr>returncode = 0, stdout = replicate 4301 49, stderr = []\<rparr>) 0 (py ''/health'') =
     [SubprocessRun [probe_path] 10,
      SendResponse 500,
      SendHeader (py ''Content-Type'') (py ''application/json''),
      EndHeaders,
      Write (utf8_encode (json_dumps
        \<lparr>status = py ''error'',
         message = py ''Health check error: '' @
           py ''Exceeds the limit (4300 digits) for integer string conversion: value has 4301 digits; use sys.set_int_max_str_digits() to increase the limit'',
         timestamp = 0\<rparr>))]"
    by (rule do_GET_ones)
  show "do_GET json_loads_limited
      (Inr \<lparr>returncode = 0, stdout = replicate 4301 49, stderr = []\<rparr>) 0 (py ''/health'') \<noteq>
     [SubprocessRun [probe_path] 10,
      SendResponse 500,
      SendHeader (py ''Content-Type'') (py ''application/json''),
      EndHeaders,
      Write (utf8_encode (json_dumps
        \<lparr>status = py ''error'',
         message = py ''Invalid JSON output from health check'',
         timestamp = 0\<rparr>))]"
    unfolding do_GET_ones by (simp add: error_message_differs)
qed

text \<open>
  C5. When the probe exits with code 0 its output is stripped; if and only if the stripped
  text contains \<^verbatim>\<open>EOF\<close>, every line that begins with the probe's invocation path is
  removed, the remaining lines are joined again and the result is stripped; a repaired text
  that passes the JSON check is the body of a 200 response.
\<close>

theorem sanitize_eof_lines:
  "clean_output out = sanitize_spec out
   \<and> ((path = py ''/'' \<or> path = py ''/health'') \<and> returncode result = 0 \<and>
       loads (sanitize_spec (stdout result)) = Inr v \<longrightarrow>
       do_GET loads (Inr result) now path =
         [SubprocessRun [probe_path] 10,
          SendResponse 200,
          SendHeader (py ''Content-Type'') (py ''application/json''),
          EndHeaders,
          Write (utf8_encode (sanitize_spec (stdout result)))])"
proof (intro conjI impI)
  show "clean_output out = sanitize_spec out"
    by (rule clean_output_refines)
  assume a: "(path = py ''/'' \<or> path = py ''/health'') \<and> returncode result = 0 \<and>
       loads (sanitize_spec (stdout result)) = Inr v"
  then have "loads (clean_output (stdout result)) = Inr v"
    by (simp only: clean_output_refines)
  with a have "do_GET loads (Inr result) now path =
     [SubprocessRun [probe_path] 10,
      SendResponse 200,
      SendHeader (py ''Content-Type'') (py ''application/json''),
      EndHeaders,
      Write (utf8_encode (clean_output (stdout result)))]"
    by (intro health_sent_200) simp_all
  then show "do_GET loads (Inr result) now path =
     [SubprocessRun [probe_path] 10,
      SendResponse 200,
      SendHeader (py ''Content-Type'') (py ''application/json''),
      EndHeaders,
      Write (utf8_encode (sanitize_spec (stdout result)))]"
    by (simp only: clean_output_refines)
qed

theorem sanitize_eof_lines_witness:
  \<open>sanitize_spec
     (py ''/usr/local/bin/global-health-check.sh: line 9: warning: wanted EOF\<newline>{"status":"ok"}\<newline>'') =
     py ''{"status":"ok"}''
   \<and> do_GET json_loads
        (Inr \<lparr>returncode = 0,
              stdout = py ''/usr/local/bin/global-health-check.sh: line 9: warning: wanted EOF\<newline>{"status":"ok"}\<newline>'',
              stderr = []\<rparr>) 0 (py ''/health'') =
         [SubprocessRun [probe_path] 10,
          SendResponse 200,
          SendHeader (py ''Content-Type'') (py ''application/json''),
          EndHeaders,
          Write ''{"status":"ok"}'']\<close>
proof -
  let ?out = \<open>py ''/usr/local/bin/global-health-check.sh: line 9: warning: wanted EOF\<newline>{"status":"ok"}\<newline>''\<close>
  let ?r = "\<lparr>returncode = 0, stdout = ?out, stderr = []\<rparr>"
  note inst = sanitize_eof_lines [of ?out "py ''/health''" ?r json_loads "()" 0]
  from inst have eq: \<open>sanitize_spec ?out = py ''{"status":"ok"}''\<close>
    by (simp only: clean_repaired)
  then have \<open>(py ''/health'' = py ''/'' \<or> py ''/health'' = py ''/health'') \<and> returncode ?r = 0 \<and>
       json_loads (sanitize_spec (stdout ?r)) = Inr ()\<close>
    by (simp add: loads_status_ok)
  with inst have \<open>do_GET json_loads (Inr ?r) 0 (py ''/health'') =
         [SubprocessRun [probe_path] 10,
          SendResponse 200,
          SendHeader (py ''Content-Type'') (py ''application/json''),
          EndHeaders,
          Write (utf8_encode (sanitize_spec (stdout ?r)))]\<close>
    by blast
  with eq show ?thesis
    by (simp add: utf8_status_ok)
qed

text \<open>
  C6. The claim holds for GET requests only: every GET request whose path is none of
  \<^verbatim>\<open>/\<close>, \<^verbatim>\<open>/health\<close> and \<^verbatim>\<open>/ping\<close> is answered with status 404, content type
  \<^verbatim>\<open>application/json\<close> and the body \<^verbatim>\<open>{"error": "Not found"}\<close>. An OPTIONS request
  to such a path is answered with status 200 and no body.
\<close>

theorem not_found_get:
  assumes "path \<noteq> py ''/''" and "path \<noteq> py ''/health''" and "path \<noteq> py ''/ping''"
  shows \<open>handle loads run now (py ''GET'') path =
     [SendResponse 404,
      SendHeader (py ''Content-Type'') (py ''application/json''),
      EndHeaders,
      Write ''{"error": "Not found"}'']\<close>
  using assms by (simp add: handle_def do_GET_def)

theorem not_found_get_witness:
  \<open>handle json_loads (Inl (Exn TimeoutExpired [])) 0 (py ''GET'') (py ''/unknown-path'') =
     [SendResponse 404,
      SendHeader (py ''Content-Type'') (py ''application/json''),
      EndHeaders,
      Write ''{"error": "Not found"}'']\<close>
  by (rule not_found_get) (simp_all add: py_def)

theorem not_found_any_method_counterexample:
  \<open>py ''/unknown-path'' \<noteq> py ''/'' \<and> py ''/unknown-path'' \<noteq> py ''/health'' \<and>
   py ''/unknown-path'' \<noteq> py ''/ping'' \<and>
   handle json_loads (Inl (Exn TimeoutExpired [])) 0 (py ''OPTIONS'') (py ''/unknown-path'') =
     [SendResponse 200, EndHeaders] \<and>
   handle json_loads (Inl (Exn TimeoutExpired [])) 0 (py ''OPTIONS'') (py ''/unknown-path'') \<noteq>
     [SendResponse 404,
      SendHeader (py ''Content-Type'') (py ''application/json''),
      EndHeaders,
      Write ''{"error": "Not found"}'']\<close>
  by (simp add: handle_def do_OPTIONS_def py_def)

text \<open>
  C7. A GET request to \<^verbatim>\<open>/ping\<close> is answered with status 200, content type
  \<^verbatim>\<open>text/plain\<close> and the body \<^verbatim>\<open>pong\<close>, whatever the probe would do, and the probe is
  not started.
\<close>

theorem ping_pong:
  "do_GET loads run now (py ''/ping'') =
     [SendResponse 200, SendHeader (py ''Content-Type'') (py ''text/plain''), EndHeaders,
      Write ''pong'']
   \<and> \<not> probe_invoked (do_GET loads run now (py ''/ping''))"
  by (simp add: do_GET_def py_def)

text \<open>
  C8. When starting or running the probe raises an exception other than the timeout, a GET
  request to \<^verbatim>\<open>/\<close> or \<^verbatim>\<open>/health\<close> is answered with status 500 and an error
  envelope; the exception does not leave the handler.
\<close>

theorem health_launch_failure:
  assumes "path = py ''/'' \<or> path = py ''/health''"
    and "exn_class e \<noteq> TimeoutExpired"
  shows "do_GET loads (Inl e) now path =
     [SubprocessRun [probe_path] 10,
      SendResponse 500,
      SendHeader (py ''Content-Type'') (py ''application/json''),
      EndHeaders,
      Write (utf8_encode (json_dumps
        \<lparr>status = py ''error'',
         message = py ''Health check error: '' @ exn_str e,
         timestamp = now\<rparr>))]"
  using assms by (auto simp add: do_GET_def health_try_def send_error_response_def)

theorem health_launch_failure_witness:
  "do_GET json_loads (Inl (Exn OtherException (py ''[Errno 13] Permission denied''))) 0
      (py ''/health'') =
     [SubprocessRun [probe_path] 10,
      SendResponse 500,
      SendHeader (py ''Content-Type'') (py ''application/json''),
      EndHeaders,
      Write (utf8_encode (json_dumps
        \<lparr>status = py ''error'',
         message = py ''Health check error: '' @ py ''[Errno 13] Permission denied'',
         timestamp = 0\<rparr>))]"
  using health_launch_failure
    [of "py ''/health''" "Exn OtherException (py ''[Errno 13] Permission denied'')" json_loads 0]
  by simp

text \<open>
  C9. Two identical requests against a probe with the same result get the same status
  code. Their bodies are the same when the status is not 500; when it is 500 both bodies are
  error envelopes with the same status and message fields, the timestamp field of each is
  the clock reading of its own run, and the two bodies are the same bytes exactly when the
  two readings are equal.
\<close>

theorem identical_requests:
  "status_codes (handle loads run now1 command path) =
     status_codes (handle loads run now2 command path)
   \<and> (status_codes (handle loads run now1 command path) \<noteq> [500] \<longrightarrow>
        handle loads run now1 command path = handle loads run now2 command path)
   \<and> (status_codes (handle loads run now1 command path) = [500] \<longrightarrow>
        (\<exists>msg.
           bodies (handle loads run now1 command path) =
             [utf8_encode (json_dumps
                \<lparr>status = py ''error'', message = msg, timestamp = now1\<rparr>)] \<and>
           bodies (handle loads run now2 command path) =
             [utf8_encode (json_dumps
                \<lparr>status = py ''error'', message = msg, timestamp = now2\<rparr>)]) \<and>
        (bodies (handle loads run now1 command path) =
           bodies (handle loads run now2 command path) \<longleftrightarrow> now1 = now2))"
proof -
  consider
    (fixed) "\<forall>now. handle loads run now command path = handle loads run 0 command path \<and>
          status_codes (handle loads run now command path) \<noteq> [500]"
  | (error) msg where "\<forall>now. handle loads run now command path =
          SubprocessRun [probe_path] 10 # send_error_response msg now"
    using handle_shape [of loads run command path] by blast
  then show ?thesis
  proof cases
    case fixed
    then have "handle loads run now1 command path = handle loads run now2 command path"
      by metis
    with fixed show ?thesis by simp
  next
    case error
    then have "handle loads run now1 command path =
          SubprocessRun [probe_path] 10 # send_error_response msg now1"
      and "handle loads run now2 command path =
          SubprocessRun [probe_path] 10 # send_error_response msg now2"
      by simp_all
    then show ?thesis
      by (simp only: status_codes_error bodies_error list.inject envelope_timestamp_inject)
        blast
  qed
qed

theorem identical_requests_witness:
  "handle json_loads (Inl (Exn TimeoutExpired [])) 0 (py ''GET'') (py ''/ping'') =
     handle json_loads (Inl (Exn TimeoutExpired [])) 1 (py ''GET'') (py ''/ping'')
   \<and> (\<exists>msg.
         bodies (handle json_loads (Inl (Exn TimeoutExpired [])) 0 (py ''GET'') (py ''/health'')) =
           [utf8_encode (json_dumps \<lparr>status = py ''error'', message = msg, timestamp = 0\<rparr>)] \<and>
         bodies (handle json_loads (Inl (Exn TimeoutExpired [])) 1 (py ''GET'') (py ''/health'')) =
           [utf8_encode (json_dumps \<lparr>status = py ''error'', message = msg, timestamp = 1\<rparr>)])
   \<and> (bodies (handle json_loads (Inl (Exn TimeoutExpired [])) 0 (py ''GET'') (py ''/health'')) =
        bodies (handle json_loads (Inl (Exn TimeoutExpired [])) 1 (py ''GET'') (py ''/health''))
        \<longleftrightarrow> (0::int) = 1)"
proof -
  let ?run = "Inl (Exn TimeoutExpired []) :: exn + CompletedProcess"
  have "status_codes (handle json_loads ?run 0 (py ''GET'') (py ''/ping'')) \<noteq> [500]"
    by (simp add: handle_def do_GET_def py_def)
  with identical_requests [of json_loads ?run 0 "py ''GET''" "py ''/ping''" 1]
  have ping: "handle json_loads ?run 0 (py ''GET'') (py ''/ping'') =
      handle json_loads ?run 1 (py ''GET'') (py ''/ping'')"
    by blast
  have "status_codes (handle json_loads ?run 0 (py ''GET'') (py ''/health'')) = [500]"
    by (simp add: handle_def do_GET_def health_try_def send_error_response_def)
  with identical_requests [of json_loads ?run 0 "py ''GET''" "py ''/health''" 1]
  have "(\<exists>msg.
         bodies (handle json_loads ?run 0 (py ''GET'') (py ''/health'')) =
           [utf8_encode (json_dumps \<lparr>status = py ''error'', message = msg, timestamp = 0\<rparr>)] \<and>
         bodies (handle json_loads ?run 1 (py ''GET'') (py ''/health'')) =
           [utf8_encode (json_dumps \<lparr>status = py ''error'', message = msg, timestamp = 1\<rparr>)])
     \<and> (bodies (handle json_loads ?run 0 (py ''GET'') (py ''/health'')) =
          bodies (handle json_loads ?run 1 (py ''GET'') (py ''/health''))
          \<longleftrightarrow> (0::int) = 1)"
    by blast
  with ping show ?thesis
    by (rule conjI)
qed

theorem identical_bodies_counterexample:
  "bodies (handle json_loads (Inl (Exn TimeoutExpired [])) 0 (py ''GET'') (py ''/health'')) \<noteq>
   bodies (handle json_loads (Inl (Exn TimeoutExpired [])) 1 (py ''GET'') (py ''/health''))"
  by (simp add: handle_def do_GET_def health_try_def send_error_response_def json_dumps_def
      json_str_def escape_char_def int_repr_def nat_repr.simps utf8_encode_def utf8_char_def
      py_def)

text \<open>
  C10. When no line of the stripped output begins with the probe's invocation path the
  cleaning step returns the stripped output, also when \<^verbatim>\<open>EOF\<close> occurs in it; with exit
  code 0 and a stripped text that passes the JSON check, the response has status 200 and the
  stripped text as its body. The condition is on the lines of the stripped output: a first
  line that begins with the path only after the leading white space is removed is dropped.
\<close>

theorem sanitize_identity:
  assumes "no_probe_line (str_strip out)"
  shows "clean_output out = str_strip out
   \<and> ((path = py ''/'' \<or> path = py ''/health'') \<and> returncode result = 0 \<and>
       stdout result = out \<and> loads (str_strip out) = Inr v \<longrightarrow>
       do_GET loads (Inr result) now path =
         [SubprocessRun [probe_path] 10,
          SendResponse 200,
          SendHeader (py ''Content-Type'') (py ''application/json''),
          EndHeaders,
          Write (utf8_encode (str_strip out))])"
proof (intro conjI impI)
  show same: "clean_output out = str_strip out"
    using assms by (rule clean_output_no_probe_line)
  assume a: "(path = py ''/'' \<or> path = py ''/health'') \<and> returncode result = 0 \<and>
       stdout result = out \<and> loads (str_strip out) = Inr v"
  with same have "loads (clean_output (stdout result)) = Inr v"
    by simp
  with a have "do_GET loads (Inr result) now path =
     [SubprocessRun [probe_path] 10,
      SendResponse 200,
      SendHeader (py ''Content-Type'') (py ''application/json''),
      EndHeaders,
      Write (utf8_encode (clean_output (stdout result)))]"
    by (intro health_sent_200) simp_all
  with a same show "do_GET loads (Inr result) now path =
     [SubprocessRun [probe_path] 10,
      SendResponse 200,
      SendHeader (py ''Content-Type'') (py ''application/json''),
      EndHeaders,
      Write (utf8_encode (str_strip out))]"
    by simp
qed

theorem sanitize_identity_witness:
  \<open>clean_output (py '' {"note":"EOF"}\<newline>'') = py ''{"note":"EOF"}''
   \<and> do_GET json_loads
        (Inr \<lparr>returncode = 0, stdout = py '' {"note":"EOF"}\<newline>'', stderr = []\<rparr>) 0
        (py ''/health'') =
         [SubprocessRun [probe_path] 10,
          SendResponse 200,
          SendHeader (py ''Content-Type'') (py ''application/json''),
          EndHeaders,
          Write ''{"note":"EOF"}'']\<close>
proof -
  let ?out = \<open>py '' {"note":"EOF"}\<newline>''\<close>
  let ?r = "\<lparr>returncode = 0, stdout = ?out, stderr = []\<rparr>"
  have "no_probe_line (str_strip ?out)"
    by (simp add: text_eval)
  note inst = sanitize_identity [OF this, of "py ''/health''" ?r json_loads "()" 0]
  have \<open>(py ''/health'' = py ''/'' \<or> py ''/health'' = py ''/health'') \<and> returncode ?r = 0 \<and>
       stdout ?r = ?out \<and> json_loads (str_strip ?out) = Inr ()\<close>
    by (simp add: strip_quoted loads_quoted)
  with inst have \<open>clean_output ?out = str_strip ?out\<close>
    and \<open>do_GET json_loads (Inr ?r) 0 (py ''/health'') =
         [SubprocessRun [probe_path] 10,
          SendResponse 200,
          SendHeader (py ''Content-Type'') (py ''application/json''),
          EndHeaders,
          Write (utf8_encode (str_strip ?out))]\<close>
    by blast+
  then show ?thesis
    by (simp add: strip_quoted utf8_quoted)
qed

theorem sanitize_identity_counterexample:
  "no_probe_line (py '' /usr/local/bin/global-health-check.sh: EOF\<newline>{}'')
   \<and> str_strip (py '' /usr/local/bin/global-health-check.sh: EOF\<newline>{}'') =
       py ''/usr/local/bin/global-health-check.sh: EOF\<newline>{}''
   \<and> clean_output (py '' /usr/local/bin/global-health-check.sh: EOF\<newline>{}'') = py ''{}''
   \<and> clean_output (py '' /usr/local/bin/global-health-check.sh: EOF\<newline>{}'') \<noteq>
       str_strip (py '' /usr/local/bin/global-health-check.sh: EOF\<newline>{}'')"
  by (simp add: text_eval)

end
